theory Spec2Isabelle
  imports Main
begin

section \<open>JavaScript values seen by the segment collector\<close>

text \<open>
  \<^verbatim>\<open>attach\<close> receives its userland module as \<^verbatim>\<open>unknown\<close> and inspects it with
  \<^verbatim>\<open>typeof\<close>, \<^verbatim>\<open>=== null\<close>, the \<^verbatim>\<open>in\<close> operator and a property read.  The
  values are therefore modelled as a datatype with one constructor per \<^verbatim>\<open>typeof\<close>
  class; an object (a module namespace, an array, a plain record) is the association
  list of its properties, and a function is an opaque identifier.
\<close>

datatype js_value =
    JSUndefined
  | JSNull
  | JSBoolean bool
  | JSNumber int
  | JSNaN
  | JSBigInt int
  | JSString string
  | JSSymbol string
  | JSFunction nat
  | JSObject "(string \<times> js_value) list"

type_synonym js_object = "(string \<times> js_value) list"

fun typeof :: "js_value \<Rightarrow> string" where
  "typeof JSUndefined = ''undefined''"
| "typeof JSNull = ''object''"
| "typeof (JSBoolean b) = ''boolean''"
| "typeof (JSNumber n) = ''number''"
| "typeof JSNaN = ''number''"
| "typeof (JSBigInt n) = ''bigint''"
| "typeof (JSString s) = ''string''"
| "typeof (JSSymbol s) = ''symbol''"
| "typeof (JSFunction f) = ''function''"
| "typeof (JSObject props) = ''object''"

text \<open>Truthiness, as the \<^verbatim>\<open>&&\<close> and \<^verbatim>\<open>!\<close> operators and \<^verbatim>\<open>while (...)\<close> read it.\<close>

fun truthy :: "js_value \<Rightarrow> bool" where
  "truthy JSUndefined = False"
| "truthy JSNull = False"
| "truthy (JSBoolean b) = b"
| "truthy (JSNumber n) = (n \<noteq> 0)"
| "truthy JSNaN = False"
| "truthy (JSBigInt n) = (n \<noteq> 0)"
| "truthy (JSString s) = (s \<noteq> [])"
| "truthy (JSSymbol s) = True"
| "truthy (JSFunction f) = True"
| "truthy (JSObject props) = True"

text \<open>\<^verbatim>\<open>key in value\<close> and \<^verbatim>\<open>value.key\<close> for a value already known to be an object.\<close>

fun hasProperty :: "string \<Rightarrow> js_value \<Rightarrow> bool" where
  "hasProperty k (JSObject props) = (map_of props k \<noteq> None)"
| "hasProperty k v = False"

fun getProperty :: "js_value \<Rightarrow> string \<Rightarrow> js_value" where
  "getProperty (JSObject props) k = (case map_of props k of None \<Rightarrow> JSUndefined | Some v \<Rightarrow> v)"
| "getProperty v k = JSUndefined"

text \<open>\<^verbatim>\<open>Object.keys(o)\<close>: the property names in insertion order.\<close>

definition Object_keys :: "js_object \<Rightarrow> string list" where
  "Object_keys props = map fst props"

text \<open>\<^verbatim>\<open>parts.join(sep)\<close> on an array of strings.\<close>

fun join :: "string \<Rightarrow> string list \<Rightarrow> string" where
  "join sep [] = []"
| "join sep [x] = x"
| "join sep (x # y # ys) = x @ sep @ join sep (y # ys)"

text \<open>
  \<^verbatim>\<open>s.split(sep)\<close> for a one-character separator: the pieces between the
  occurrences of the separator, so that a string without the separator (the empty
  string too) is one piece.
\<close>

fun split :: "char \<Rightarrow> string \<Rightarrow> string list" where
  "split sep [] = [[]]"
| "split sep (c # cs) =
     (if c = sep then [] # split sep cs
      else (case split sep cs of
              [] \<Rightarrow> [[c]]
            | p # ps \<Rightarrow> (c # p) # ps))"

text \<open>\<^verbatim>\<open>xs.slice(1)\<close>.\<close>

definition slice1 :: "'a list \<Rightarrow> 'a list" where
  "slice1 xs = drop 1 xs"

section \<open>Segments and errors\<close>

text \<open>
  \<^verbatim>\<open>AppSegment\<close>.  A validated \<^verbatim>\<open>AppSegmentConfig\<close> is the object that the schema's
  \<^verbatim>\<open>safeParse\<close> returned; \<^verbatim>\<open>generateStaticParams\<close> holds the function value taken
  from the module.  \<^verbatim>\<open>undefined\<close> is \<open>None\<close>.
\<close>

record AppSegment =
  name :: string
  param :: "string option"
  filePath :: "string option"
  config :: "js_object option"
  isDynamicSegment :: bool
  generateStaticParams :: "js_value option"

text \<open>The two error classes the file throws, each with its message.\<close>

datatype error = Error string | InvariantError string

text \<open>The value \<^verbatim>\<open>getSegmentParam\<close> returns when it recognises a name.\<close>

datatype SegmentParam = SegmentParam (sp_param: string) (sp_type: string)

text \<open>
  \<^verbatim>\<open>LoaderTree\<close> is the tuple \<^verbatim>\<open>[name, parallelRoutes, modules]\<close>;
  \<^verbatim>\<open>parallelRoutes\<close> maps a slot name to a sub-tree.  The third component is only
  read by \<^verbatim>\<open>getLayoutOrPageModule\<close>, so its type is left open.
\<close>

datatype 'm LoaderTree =
  LoaderTree (treeName: string) (parallelRoutes: "(string \<times> 'm LoaderTree) list") (modules: 'm)

text \<open>
  The functions this file imports and whose sources belong to other modules:
  the schema's \<^verbatim>\<open>safeParse\<close> (\<open>Inl\<close> carries the \<^verbatim>\<open>ZodError\<close>, \<open>Inr\<close> the parsed
  data), \<^verbatim>\<open>normalizeZodErrors\<close> (the \<^verbatim>\<open>message\<close> of each entry it returns, in
  order), \<^verbatim>\<open>getSegmentParam\<close>, \<^verbatim>\<open>isClientReference\<close> and
  \<^verbatim>\<open>getLayoutOrPageModule\<close> (the awaited \<^verbatim>\<open>{ mod, filePath }\<close>).  They are passed
  to every function that calls them.
\<close>

record ('e, 'm) collaborators =
  safeParse :: "js_value \<Rightarrow> 'e + js_object"
  normalizeZodErrors :: "'e \<Rightarrow> string list"
  getSegmentParam :: "string \<Rightarrow> SegmentParam option"
  isClientReference :: "js_value \<Rightarrow> bool"
  getLayoutOrPageModule :: "'m LoaderTree \<Rightarrow> js_value \<times> string option"

section \<open>attach\<close>

text \<open>
  A template literal prints an \<^verbatim>\<open>undefined\<close> value as the word \<^verbatim>\<open>undefined\<close>.
\<close>

definition template_string :: "string option \<Rightarrow> string" where
  "template_string v = (case v of None \<Rightarrow> ''undefined'' | Some s \<Rightarrow> s)"

text \<open>\<^verbatim>\<open>segment.config?.runtime === 'edge'\<close>.\<close>

definition config_runtime_is_edge :: "AppSegment \<Rightarrow> bool" where
  "config_runtime_is_edge segment =
     (case config segment of
        None \<Rightarrow> False
      | Some c \<Rightarrow> getProperty (JSObject c) ''runtime'' = JSString ''edge'')"

text \<open>
  \<^verbatim>\<open>attach\<close> mutates the segment it is given and may throw after it has done so.
  The model returns the outcome (\<open>Inl\<close> the thrown error, \<open>Inr ()\<close> a normal return)
  together with the segment as the call leaves it.
\<close>

definition attach ::
  "('e, 'm) collaborators \<Rightarrow> AppSegment \<Rightarrow> js_value \<Rightarrow> (error + unit) \<times> AppSegment" where
  "attach d segment userland =
     (if typeof userland \<noteq> ''object'' \<or> userland = JSNull then (Inr (), segment)
      else
        (case safeParse d userland of
           Inl err \<Rightarrow>
             (let messages =
                    [''Invalid segment configuration options detected for \"''
                       @ template_string (filePath segment) @ ''\": '']
                    @ map (\<lambda>message. ''    '' @ message) (normalizeZodErrors d err)
              in (Inl (Error (join [CHR 0x0A] messages)), segment))
         | Inr data \<Rightarrow>
             (let segment1 =
                    (if length (Object_keys data) > 0
                     then segment\<lparr>config := Some data\<rparr> else segment)
              in if hasProperty ''generateStaticParams'' userland
                    \<and> typeof (getProperty userland ''generateStaticParams'') = ''function''
                 then
                   (let segment2 = segment1\<lparr>generateStaticParams :=
                                     Some (getProperty userland ''generateStaticParams'')\<rparr>
                    in if config_runtime_is_edge segment2
                       then (Inl (Error
                               ''Edge runtime is not supported with `generateStaticParams`.''),
                             segment2)
                       else (Inr (), segment2))
                 else (Inr (), segment1))))"

section \<open>Dynamic segment names\<close>

text \<open>
  \<^verbatim>\<open>/^\[.*\]$/.test(name)\<close>.  Without flags, \<^verbatim>\<open>^\<close> and \<^verbatim>\<open>$\<close> are the two ends
  of the string and \<^verbatim>\<open>.\<close> is any character but a line terminator: line feed,
  carriage return, U+2028 and U+2029 (in the bytes of a \<^typ>\<open>string\<close>, E2 80 A8 and
  E2 80 A9).
\<close>

fun hasLineTerminator :: "string \<Rightarrow> bool" where
  "hasLineTerminator [] = False"
| "hasLineTerminator (c # cs) =
     (c = CHR 0x0A \<or> c = CHR 0x0D
      \<or> (c = CHR 0xE2 \<and> (take 2 cs = [CHR 0x80, CHR 0xA8] \<or> take 2 cs = [CHR 0x80, CHR 0xA9]))
      \<or> hasLineTerminator cs)"

definition bracketed_test :: "string \<Rightarrow> bool" where
  "bracketed_test name' =
     (2 \<le> length name' \<and> hd name' = CHR ''['' \<and> last name' = CHR '']''
      \<and> \<not> hasLineTerminator (butlast (tl name')))"

section \<open>collectAppPageSegments\<close>

text \<open>
  The body of the \<^verbatim>\<open>while\<close> loop for the node \<^verbatim>\<open>current\<close>, up to the
  \<^verbatim>\<open>segments.push\<close>: the segment built for the node, with the outcome of
  \<^verbatim>\<open>attach\<close> when it is called.  \<^verbatim>\<open>userland && isClientReference(userland)\<close> is
  true when \<^verbatim>\<open>userland\<close> is truthy and a client reference.
\<close>

definition pageSegment ::
  "('e, 'm) collaborators \<Rightarrow> 'm LoaderTree \<Rightarrow> (error + unit) \<times> AppSegment" where
  "pageSegment d current =
     (let name' = treeName current;
          (userland, filePath') = getLayoutOrPageModule d current;
          isClientComponent = (truthy userland \<and> isClientReference d userland);
          isDynamicSegment' = bracketed_test name';
          param' = (if isDynamicSegment'
                    then map_option sp_param (getSegmentParam d name') else None);
          segment = \<lparr>name = name', param = param', filePath = filePath', config = None,
                     isDynamicSegment = isDynamicSegment', generateStaticParams = None\<rparr>
      in if \<not> isClientComponent then attach d segment userland else (Inr (), segment))"

lemma children_smaller:
  "map_of ps k = Some t \<Longrightarrow> size t < size (LoaderTree n ps m)"
  by (induction ps) (auto split: if_splits)

text \<open>
  The loop itself: \<^verbatim>\<open>current\<close> is a node or \<^verbatim>\<open>undefined\<close>, \<^verbatim>\<open>segments\<close> the
  array built so far.  An error thrown by \<^verbatim>\<open>attach\<close> leaves the function.
\<close>

function collectAppPageSegments_loop ::
  "('e, 'm) collaborators \<Rightarrow> 'm LoaderTree option \<Rightarrow> AppSegment list
     \<Rightarrow> error + AppSegment list" where
  "collectAppPageSegments_loop d None segments = Inr segments"
| "collectAppPageSegments_loop d (Some current) segments =
     (case pageSegment d current of
        (Inl e, segment) \<Rightarrow> Inl e
      | (Inr u, segment) \<Rightarrow>
          collectAppPageSegments_loop d
            (map_of (parallelRoutes current) ''children'') (segments @ [segment]))"
  by pat_completeness auto
termination
proof (relation "measure (\<lambda>(d, cur, segments). case cur of None \<Rightarrow> 0 | Some t \<Rightarrow> Suc (size t))")
  show "wf (measure (\<lambda>(d, cur, segments). case cur of None \<Rightarrow> 0 | Some t \<Rightarrow> Suc (size t)))"
    by simp
next
  fix d :: "('e, 'm) collaborators" and current :: "'m LoaderTree"
    and segments :: "AppSegment list" and x1 x2 u
  show "((d, map_of (parallelRoutes current) ''children'', segments @ [x2]),
          (d, Some current, segments))
        \<in> measure (\<lambda>(d, cur, segments). case cur of None \<Rightarrow> 0 | Some t \<Rightarrow> Suc (size t))"
    by (cases current) (auto split: option.splits dest: children_smaller)
qed

record 'm AppPageRouteModule =
  loaderTree :: "'m LoaderTree"

definition collectAppPageSegments ::
  "('e, 'm) collaborators \<Rightarrow> 'm AppPageRouteModule \<Rightarrow> error + AppSegment list" where
  "collectAppPageSegments d routeModule =
     collectAppPageSegments_loop d (Some (loaderTree routeModule)) []"

section \<open>collectAppRouteSegments\<close>

text \<open>
  \<^verbatim>\<open>routeModule.definition.pathname\<close>, \<^verbatim>\<open>routeModule.definition.filename\<close> and
  \<^verbatim>\<open>routeModule.userland\<close>.
\<close>

record AppRouteRouteModule =
  pathname :: string
  filename :: string
  userland :: js_value

text \<open>The arrow function given to \<^verbatim>\<open>parts.map\<close>.\<close>

definition routeSegment :: "('e, 'm) collaborators \<Rightarrow> string \<Rightarrow> AppSegment" where
  "routeSegment d name' =
     (let isDynamicSegment' = bracketed_test name';
          param' = (if isDynamicSegment'
                    then map_option sp_param (getSegmentParam d name') else None)
      in \<lparr>name = name', param = param', filePath = None, config = None,
          isDynamicSegment = isDynamicSegment', generateStaticParams = None\<rparr>)"

text \<open>
  \<^verbatim>\<open>segment\<close> is the last element of \<^verbatim>\<open>segments\<close>, so the assignment to its
  \<^verbatim>\<open>filePath\<close> and the mutations of \<^verbatim>\<open>attach\<close> are updates of the array at its
  last index.
\<close>

definition collectAppRouteSegments ::
  "('e, 'm) collaborators \<Rightarrow> AppRouteRouteModule \<Rightarrow> error + AppSegment list" where
  "collectAppRouteSegments d routeModule =
     (let parts = slice1 (split (CHR ''/'') (pathname routeModule))
      in if length parts = 0 then Inl (InvariantError ''Expected at least one segment'')
         else
           (let segments = map (routeSegment d) parts;
                segment = (segments ! (length segments - 1))
                            \<lparr>filePath := Some (filename routeModule)\<rparr>
            in (case attach d segment (userland routeModule) of
                  (Inl e, segment') \<Rightarrow> Inl e
                | (Inr u, segment') \<Rightarrow> Inr (segments[length segments - 1 := segment']))))"

section \<open>collectSegments\<close>

text \<open>
  The route module is an app route module, an app page module, or neither
  (\<^verbatim>\<open>isAppRouteRouteModule\<close>, \<^verbatim>\<open>isAppPageRouteModule\<close>).
\<close>

datatype 'm RouteModule =
    AppRoute AppRouteRouteModule
  | AppPage "'m AppPageRouteModule"
  | OtherRouteModule

fun collectSegments ::
  "('e, 'm) collaborators \<Rightarrow> 'm RouteModule \<Rightarrow> error + AppSegment list" where
  "collectSegments d (AppRoute routeModule) = collectAppRouteSegments d routeModule"
| "collectSegments d (AppPage routeModule) = collectAppPageSegments d routeModule"
| "collectSegments d OtherRouteModule =
     Inl (InvariantError ''Expected a route module to be one of app route or page'')"

text \<open>
  The nodes the loop visits from a tree: the tree, its \<^verbatim>\<open>children\<close> sub-tree, and
  so on while there is one.
\<close>

function chain :: "'m LoaderTree \<Rightarrow> 'm LoaderTree list" where
  "chain t =
     t # (case map_of (parallelRoutes t) ''children'' of None \<Rightarrow> [] | Some c \<Rightarrow> chain c)"
  by pat_completeness auto
termination
proof (relation "measure size")
  show "wf (measure (size :: 'm LoaderTree \<Rightarrow> nat))" by simp
next
  fix t c :: "'m LoaderTree"
  assume "map_of (parallelRoutes t) ''children'' = Some c"
  then show "(c, t) \<in> measure size"
    by (cases t) (auto dest: children_smaller)
qed

declare chain.simps [simp del]

text \<open>
  A segment as it is when \<^verbatim>\<open>getSegmentParam\<close> is the function \<open>g\<close>: \<^verbatim>\<open>param\<close> is
  what \<open>g\<close> extracts from the name of a dynamic segment, and nothing else differs.
  It serves to compare a collection under two extraction routines.
\<close>

definition with_extraction ::
  "(string \<Rightarrow> SegmentParam option) \<Rightarrow> AppSegment \<Rightarrow> AppSegment" where
  "with_extraction g s =
     s\<lparr>param := (if isDynamicSegment s then map_option sp_param (g (name s)) else None)\<rparr>"

section \<open>Concrete collaborators and inputs\<close>

text \<open>
  To run the functions on concrete inputs, a small stand-in for each imported function.
  The stand-in schema knows two keys: \<^verbatim>\<open>runtime\<close>, which must be \<^verbatim>\<open>'edge'\<close> or
  \<^verbatim>\<open>'nodejs'\<close>, and \<^verbatim>\<open>maxDuration\<close>, which must be a number.  It reports every
  offending key, drops the keys it does not know, and its error is the list of its
  messages.
\<close>

definition sample_issues :: "js_value \<Rightarrow> string list" where
  "sample_issues u =
     (if hasProperty ''runtime'' u
         \<and> getProperty u ''runtime'' \<notin> {JSString ''edge'', JSString ''nodejs''}
      then [''Invalid runtime''] else [])
     @ (if hasProperty ''maxDuration'' u \<and> typeof (getProperty u ''maxDuration'') \<noteq> ''number''
        then [''Invalid maxDuration''] else [])"

definition sample_data :: "js_value \<Rightarrow> js_object" where
  "sample_data u =
     concat (map (\<lambda>k. if hasProperty k u then [(k, getProperty u k)] else [])
                 [''runtime'', ''maxDuration''])"

definition sample_safeParse :: "js_value \<Rightarrow> string list + js_object" where
  "sample_safeParse u =
     (if sample_issues u = [] then Inr (sample_data u) else Inl (sample_issues u))"

text \<open>The stand-in name extraction takes what is between the brackets.\<close>

definition sample_getSegmentParam :: "string \<Rightarrow> SegmentParam option" where
  "sample_getSegmentParam n =
     (if bracketed_test n then Some (SegmentParam (butlast (tl n)) ''dynamic'') else None)"

definition sample_isClientReference :: "js_value \<Rightarrow> bool" where
  "sample_isClientReference u =
     (getProperty u ''$$typeof'' = JSSymbol ''react.client.reference'')"

text \<open>A node of a sample tree carries its module and file path directly.\<close>

definition sample_collaborators ::
  "(string list, js_value \<times> string option) collaborators" where
  "sample_collaborators =
     \<lparr>safeParse = sample_safeParse,
      normalizeZodErrors = (\<lambda>e. e),
      getSegmentParam = sample_getSegmentParam,
      isClientReference = sample_isClientReference,
      getLayoutOrPageModule = modules\<rparr>"

definition sample_segment :: AppSegment where
  "sample_segment =
     \<lparr>name = ''blog'', param = None, filePath = Some ''app/blog/page.tsx'', config = None,
      isDynamicSegment = False, generateStaticParams = None\<rparr>"

definition sample_edge_userland :: js_value where
  "sample_edge_userland =
     JSObject [(''runtime'', JSString ''edge''), (''generateStaticParams'', JSFunction 0)]"

definition sample_invalid_userland :: js_value where
  "sample_invalid_userland =
     JSObject [(''runtime'', JSNumber 1), (''maxDuration'', JSString ''long'')]"

definition sample_nodejs_userland :: js_value where
  "sample_nodejs_userland =
     JSObject [(''runtime'', JSString ''nodejs''), (''generateStaticParams'', JSFunction 1)]"

definition sample_client_userland :: js_value where
  "sample_client_userland =
     JSObject [(''$$typeof'', JSSymbol ''react.client.reference''),
               (''runtime'', JSString ''edge''), (''generateStaticParams'', JSFunction 2)]"

definition sample_page :: "(js_value \<times> string option) LoaderTree" where
  "sample_page =
     LoaderTree ''[id]'' [] (sample_nodejs_userland, Some ''app/[id]/page.tsx'')"

definition sample_modal :: "(js_value \<times> string option) LoaderTree" where
  "sample_modal = LoaderTree ''@modal'' [] (JSUndefined, None)"

definition sample_tree :: "(js_value \<times> string option) LoaderTree" where
  "sample_tree =
     LoaderTree [] [(''modal'', sample_modal), (''children'', sample_page)]
       (sample_client_userland, Some ''app/layout.tsx'')"

definition sample_invalid_tree :: "(js_value \<times> string option) LoaderTree" where
  "sample_invalid_tree =
     LoaderTree [] [(''children'', sample_page)]
       (sample_invalid_userland, Some ''app/layout.tsx'')"

definition sample_route :: AppRouteRouteModule where
  "sample_route =
     \<lparr>pathname = ''/a/[id]/b'', filename = ''app/a/[id]/b/route.ts'',
      userland = sample_nodejs_userland\<rparr>"

definition sample_edge_route :: AppRouteRouteModule where
  "sample_edge_route =
     \<lparr>pathname = ''/a/[id]/b'', filename = ''app/a/[id]/b/route.ts'',
      userland = sample_edge_userland\<rparr>"

definition sample_root_route :: AppRouteRouteModule where
  "sample_root_route =
     \<lparr>pathname = ''/'', filename = ''app/route.ts'', userland = JSObject []\<rparr>"

text \<open>An extraction routine that recognises no name.\<close>

definition sample_no_param :: "string \<Rightarrow> SegmentParam option" where
  "sample_no_param n = None"

section \<open>Auxiliary facts\<close>

subsection \<open>Strings and arrays\<close>

lemma join_Cons: "join sep (x # xs) = x @ concat (map (\<lambda>m. sep @ m) xs)"
  by (induction xs arbitrary: x) auto

lemma split_not_Nil: "split sep s \<noteq> []"
  by (induction s) (auto split: list.splits)

lemma length_split: "length (split sep s) = Suc (count_list s sep)"
  by (induction s) (auto split: list.splits simp: split_not_Nil)

lemma slice1_split_Nil: "(length (slice1 (split sep s)) = 0) = (sep \<notin> set s)"
  by (simp add: slice1_def length_split count_list_0_iff)

lemma bracketed_test_iff:
  "bracketed_test n = (\<exists>m. n = CHR ''['' # m @ '']'' \<and> \<not> hasLineTerminator m)"
proof
  assume b: "bracketed_test n"
  then obtain c cs where n: "n = c # cs" by (cases n) (auto simp: bracketed_test_def)
  from b n have cs: "cs \<noteq> []" by (auto simp: bracketed_test_def)
  from b n cs have "c = CHR ''[''" and "last cs = CHR '']''"
    and "\<not> hasLineTerminator (butlast cs)"
    by (auto simp: bracketed_test_def)
  moreover have "cs = butlast cs @ [last cs]" using cs by simp
  ultimately have "n = CHR ''['' # butlast cs @ '']'' \<and> \<not> hasLineTerminator (butlast cs)"
    using n by simp
  then show "\<exists>m. n = CHR ''['' # m @ '']'' \<and> \<not> hasLineTerminator m" by blast
next
  assume "\<exists>m. n = CHR ''['' # m @ '']'' \<and> \<not> hasLineTerminator m"
  then show "bracketed_test n" by (auto simp: bracketed_test_def)
qed

subsection \<open>What attach leaves alone\<close>

lemma attach_frame:
  "name (snd (attach d s u)) = name s"
  "param (snd (attach d s u)) = param s"
  "filePath (snd (attach d s u)) = filePath s"
  "isDynamicSegment (snd (attach d s u)) = isDynamicSegment s"
  by (simp_all add: attach_def Let_def split: sum.splits)

lemma attach_error_kind: "attach d s u = (Inl e, s') \<Longrightarrow> \<exists>msg. e = Error msg"
  by (auto simp: attach_def Let_def split: sum.splits if_splits)

lemma falsy_not_object: "\<not> truthy u \<Longrightarrow> typeof u \<noteq> ''object'' \<or> u = JSNull"
  by (cases u) simp_all

subsection \<open>The nodes of a walk\<close>

lemma chain_not_Nil: "chain t \<noteq> []"
  by (subst chain.simps) simp

lemma chain_nth_0: "chain t ! 0 = t"
  by (subst chain.simps) simp

lemma chain_root_mem: "t \<in> set (chain t)"
  by (subst chain.simps) simp

lemma chain_children_None:
  "map_of (parallelRoutes t) ''children'' = None \<Longrightarrow> chain t = [t]"
  by (subst chain.simps) simp

lemma chain_children_Some:
  "map_of (parallelRoutes t) ''children'' = Some c \<Longrightarrow> chain t = t # chain c"
  by (subst chain.simps) simp

lemma chain_nth_children:
  "i < length (chain t)
     \<Longrightarrow> map_of (parallelRoutes (chain t ! i)) ''children''
           = (if Suc i < length (chain t) then Some (chain t ! Suc i) else None)"
proof (induction t arbitrary: i rule: chain.induct)
  case (1 t)
  show ?case
  proof (cases "map_of (parallelRoutes t) ''children''")
    case None
    then show ?thesis using "1.prems" by (simp add: chain_children_None)
  next
    case (Some c)
    have c0: "chain c ! 0 = c" by (rule chain_nth_0)
    have ne: "chain c \<noteq> []" by (rule chain_not_Nil)
    show ?thesis
    proof (cases i)
      case 0
      then show ?thesis using Some c0 ne by (simp add: chain_children_Some)
    next
      case (Suc j)
      then have "j < length (chain c)" using "1.prems" Some by (simp add: chain_children_Some)
      from "1.IH" [OF Some this] show ?thesis using Suc Some by (simp add: chain_children_Some)
    qed
  qed
qed

subsection \<open>The page walk as a map over its nodes\<close>

lemma loop_ok:
  "\<forall>n \<in> set (chain t). fst (pageSegment d n) = Inr ()
     \<Longrightarrow> collectAppPageSegments_loop d (Some t) acc
           = Inr (acc @ map (\<lambda>n. snd (pageSegment d n)) (chain t))"
proof (induction t arbitrary: acc rule: chain.induct)
  case (1 t)
  obtain seg where seg: "pageSegment d t = (Inr (), seg)"
    using "1.prems" chain_root_mem [of t] by (cases "pageSegment d t") auto
  show ?case
  proof (cases "map_of (parallelRoutes t) ''children''")
    case None
    then show ?thesis using seg by (simp add: chain_children_None)
  next
    case (Some c)
    have "\<forall>n \<in> set (chain c). fst (pageSegment d n) = Inr ()"
      using "1.prems" Some by (simp add: chain_children_Some)
    from "1.IH" [OF Some this, of "acc @ [seg]"] show ?thesis
      using seg Some by (simp add: chain_children_Some)
  qed
qed

lemma loop_Inr:
  "collectAppPageSegments_loop d (Some t) acc = Inr segs
     \<Longrightarrow> \<forall>n \<in> set (chain t). fst (pageSegment d n) = Inr ()"
proof (induction t arbitrary: acc rule: chain.induct)
  case (1 t)
  obtain r seg where seg: "pageSegment d t = (r, seg)" by (cases "pageSegment d t")
  with "1.prems" have r: "r = Inr ()" by (cases r) auto
  show ?case
  proof (cases "map_of (parallelRoutes t) ''children''")
    case None
    then show ?thesis using seg r by (simp add: chain_children_None)
  next
    case (Some c)
    have "collectAppPageSegments_loop d (Some c) (acc @ [seg]) = Inr segs"
      using "1.prems" seg r Some by simp
    from "1.IH" [OF Some this] show ?thesis
      using seg r Some by (simp add: chain_children_Some)
  qed
qed

lemma collectAppPageSegments_Inr:
  assumes "collectAppPageSegments d routeModule = Inr segs"
  shows "segs = map (\<lambda>n. snd (pageSegment d n)) (chain (loaderTree routeModule))"
proof -
  have "\<forall>n \<in> set (chain (loaderTree routeModule)). fst (pageSegment d n) = Inr ()"
    using assms unfolding collectAppPageSegments_def by (rule loop_Inr)
  from loop_ok [OF this, of "[]"] assms show ?thesis
    by (simp add: collectAppPageSegments_def)
qed

lemma pageSegment_frame:
  "name (snd (pageSegment d n)) = treeName n"
  "isDynamicSegment (snd (pageSegment d n)) = bracketed_test (treeName n)"
  "param (snd (pageSegment d n))
     = (if bracketed_test (treeName n)
        then map_option sp_param (getSegmentParam d (treeName n)) else None)"
  "filePath (snd (pageSegment d n)) = snd (getLayoutOrPageModule d n)"
  by (simp_all add: pageSegment_def Let_def attach_frame split: prod.splits)

lemma pageSegment_client:
  assumes "isClientReference d (fst (getLayoutOrPageModule d n))"
  shows "pageSegment d n
           = (Inr (),
              \<lparr>name = treeName n,
               param = (if bracketed_test (treeName n)
                        then map_option sp_param (getSegmentParam d (treeName n)) else None),
               filePath = snd (getLayoutOrPageModule d n), config = None,
               isDynamicSegment = bracketed_test (treeName n),
               generateStaticParams = None\<rparr>)"
proof -
  obtain u fp where g: "getLayoutOrPageModule d n = (u, fp)"
    by (cases "getLayoutOrPageModule d n")
  show ?thesis
  proof (cases "truthy u")
    case True
    then show ?thesis using assms g by (simp add: pageSegment_def Let_def)
  next
    case False
    from falsy_not_object [OF this] show ?thesis using assms g
      by (simp add: pageSegment_def Let_def attach_def)
  qed
qed

subsection \<open>The segments of a handler route\<close>

lemma routeSegment_fields:
  "name (routeSegment d n) = n"
  "isDynamicSegment (routeSegment d n) = bracketed_test n"
  "param (routeSegment d n)
     = (if bracketed_test n then map_option sp_param (getSegmentParam d n) else None)"
  by (simp_all add: routeSegment_def Let_def)

lemma collectAppRouteSegments_Inr:
  assumes "collectAppRouteSegments d routeModule = Inr segs" and "s \<in> set segs"
  shows "param s = param (routeSegment d (name s))
         \<and> isDynamicSegment s = isDynamicSegment (routeSegment d (name s))"
proof -
  let ?parts = "slice1 (split (CHR ''/'') (pathname routeModule))"
  let ?segments = "map (routeSegment d) ?parts"
  let ?k = "length ?segments - 1"
  let ?segment = "(?segments ! ?k)\<lparr>filePath := Some (filename routeModule)\<rparr>"
  from assms(1) have ne: "?parts \<noteq> []"
    by (auto simp: collectAppRouteSegments_def)
  obtain r s' where a: "attach d ?segment (userland routeModule) = (r, s')"
    by (cases "attach d ?segment (userland routeModule)")
  from assms(1) ne a have segs: "segs = ?segments[?k := s']"
    by (auto simp: collectAppRouteSegments_def Let_def split: sum.splits)
  have k: "?k < length ?parts" using ne by simp
  have s': "s' = snd (attach d ?segment (userland routeModule))" using a by simp
  have fr: "name s' = ?parts ! ?k" "param s' = param (routeSegment d (?parts ! ?k))"
    "isDynamicSegment s' = isDynamicSegment (routeSegment d (?parts ! ?k))"
    using k unfolding s' attach_frame by (simp_all add: routeSegment_fields(1))
  from assms(2) segs have "s = s' \<or> s \<in> set ?segments"
    using set_update_subset_insert [of ?segments ?k s'] by auto
  then show ?thesis
  proof
    assume "s = s'"
    then show ?thesis using fr by simp
  next
    assume "s \<in> set ?segments"
    then obtain n where "s = routeSegment d n" by auto
    then show ?thesis by (simp add: routeSegment_fields(1))
  qed
qed

subsection \<open>Collections under another extraction routine\<close>

lemma attach_getSegmentParam: "attach (d\<lparr>getSegmentParam := g\<rparr>) s u = attach d s u"
  by (simp add: attach_def split: sum.splits)

lemma attach_param_update:
  "attach d (s\<lparr>param := p\<rparr>) u = (fst (attach d s u), (snd (attach d s u))\<lparr>param := p\<rparr>)"
  by (simp add: attach_def Let_def config_runtime_is_edge_def split: sum.splits)

lemma attach_with_extraction:
  "attach d (with_extraction g s) u
     = (fst (attach d s u), with_extraction g (snd (attach d s u)))"
  unfolding with_extraction_def attach_param_update attach_frame by (rule refl)

lemma pageSegment_getSegmentParam:
  "pageSegment (d\<lparr>getSegmentParam := g\<rparr>) n
     = (fst (pageSegment d n), with_extraction g (snd (pageSegment d n)))"
proof -
  obtain u fp where gl: "getLayoutOrPageModule d n = (u, fp)"
    by (cases "getLayoutOrPageModule d n")
  define p where "p = (if bracketed_test (treeName n)
                       then map_option sp_param (getSegmentParam d (treeName n)) else None)"
  define s where "s = \<lparr>name = treeName n, param = p, filePath = fp, config = None,
                  isDynamicSegment = bracketed_test (treeName n), generateStaticParams = None\<rparr>"
  have old: "pageSegment d n
               = (if \<not> (truthy u \<and> isClientReference d u) then attach d s u else (Inr (), s))"
    by (simp add: pageSegment_def Let_def gl s_def p_def)
  have new: "pageSegment (d\<lparr>getSegmentParam := g\<rparr>) n
               = (if \<not> (truthy u \<and> isClientReference d u)
                  then attach d (with_extraction g s) u else (Inr (), with_extraction g s))"
    by (simp add: pageSegment_def Let_def gl s_def with_extraction_def attach_getSegmentParam)
  show ?thesis
    unfolding new old by (simp add: attach_with_extraction)
qed

lemma loop_getSegmentParam:
  "collectAppPageSegments_loop (d\<lparr>getSegmentParam := g\<rparr>) cur (map (with_extraction g) acc)
     = (case collectAppPageSegments_loop d cur acc of
          Inl e \<Rightarrow> Inl e
        | Inr segs \<Rightarrow> Inr (map (with_extraction g) segs))"
proof (induction d cur acc rule: collectAppPageSegments_loop.induct)
  case (1 d segments)
  show ?case by simp
next
  case (2 d current segments)
  obtain r seg where ps: "pageSegment d current = (r, seg)" by (cases "pageSegment d current")
  show ?case
  proof (cases r)
    case (Inl e)
    then show ?thesis using ps by (simp add: pageSegment_getSegmentParam)
  next
    case (Inr x)
    from "2.IH" [OF ps [symmetric] Inr] show ?thesis using ps Inr
      by (simp add: pageSegment_getSegmentParam)
  qed
qed

lemma routeSegment_getSegmentParam:
  "routeSegment (d\<lparr>getSegmentParam := g\<rparr>) n = with_extraction g (routeSegment d n)"
  by (simp add: routeSegment_def Let_def with_extraction_def)

lemma with_extraction_filePath:
  "(with_extraction g s)\<lparr>filePath := fp\<rparr> = with_extraction g (s\<lparr>filePath := fp\<rparr>)"
  by (simp add: with_extraction_def)

lemma route_getSegmentParam:
  "collectAppRouteSegments (d\<lparr>getSegmentParam := g\<rparr>) routeModule
     = (case collectAppRouteSegments d routeModule of
          Inl e \<Rightarrow> Inl e
        | Inr segs \<Rightarrow> Inr (map (with_extraction g) segs))"
proof (cases "slice1 (split (CHR ''/'') (pathname routeModule)) = []")
  case True
  then show ?thesis by (simp add: collectAppRouteSegments_def)
next
  case False
  let ?parts = "slice1 (split (CHR ''/'') (pathname routeModule))"
  let ?segments = "map (routeSegment d) ?parts"
  let ?k = "length ?parts - 1"
  let ?segment = "(?segments ! ?k)\<lparr>filePath := Some (filename routeModule)\<rparr>"
  have k: "?k < length ?parts" using False by simp
  have segs': "map (routeSegment (d\<lparr>getSegmentParam := g\<rparr>)) ?parts
                 = map (with_extraction g) ?segments"
    by (simp add: routeSegment_getSegmentParam)
  have seg': "(map (with_extraction g) ?segments ! ?k)\<lparr>filePath := Some (filename routeModule)\<rparr>
                = with_extraction g ?segment"
    using k by (simp add: with_extraction_filePath)
  obtain r s' where a: "attach d ?segment (userland routeModule) = (r, s')"
    by (cases "attach d ?segment (userland routeModule)")
  have a': "attach d ((map (with_extraction g) ?segments ! ?k)
                        \<lparr>filePath := Some (filename routeModule)\<rparr>)
              (userland routeModule) = (r, with_extraction g s')"
    unfolding seg' attach_with_extraction a by simp
  have upd: "(map (with_extraction g) ?segments)[?k := with_extraction g s']
               = map (with_extraction g) (?segments[?k := s'])"
    by (simp add: map_update)
  have old: "collectAppRouteSegments d routeModule
               = (case r of Inl e \<Rightarrow> Inl e | Inr x \<Rightarrow> Inr (?segments[?k := s']))"
    using False a by (cases r) (simp_all add: collectAppRouteSegments_def Let_def)
  have new: "collectAppRouteSegments (d\<lparr>getSegmentParam := g\<rparr>) routeModule
               = (case r of Inl e \<Rightarrow> Inl e
                  | Inr x \<Rightarrow> Inr ((map (with_extraction g) ?segments)[?k := with_extraction g s']))"
    using False a'
    by (cases r)
      (simp_all add: collectAppRouteSegments_def Let_def attach_getSegmentParam segs')
  show ?thesis unfolding old new upd by (cases r) simp_all
qed

subsection \<open>Names and errors of a collection\<close>

lemma collectAppRouteSegments_names:
  assumes "collectAppRouteSegments d routeModule = Inr segs"
  shows "map name segs = slice1 (split (CHR ''/'') (pathname routeModule))"
proof -
  let ?parts = "slice1 (split (CHR ''/'') (pathname routeModule))"
  let ?segments = "map (routeSegment d) ?parts"
  let ?k = "length ?segments - 1"
  let ?segment = "(?segments ! ?k)\<lparr>filePath := Some (filename routeModule)\<rparr>"
  from assms have ne: "?parts \<noteq> []"
    by (auto simp: collectAppRouteSegments_def)
  obtain r s' where a: "attach d ?segment (userland routeModule) = (r, s')"
    by (cases "attach d ?segment (userland routeModule)")
  from assms ne a have segs: "segs = ?segments[?k := s']"
    by (auto simp: collectAppRouteSegments_def Let_def split: sum.splits)
  have k: "?k < length ?parts" using ne by simp
  have "s' = snd (attach d ?segment (userland routeModule))" using a by simp
  then have n: "name s' = ?parts ! ?k"
    using k by (simp add: attach_frame routeSegment_fields(1))
  have m: "map name ?segments = ?parts"
    by (simp add: routeSegment_fields(1) comp_def)
  have "map name segs = (map name ?segments)[?k := name s']"
    unfolding segs by (simp add: map_update)
  then show ?thesis unfolding m n by simp
qed

lemma pageSegment_error:
  assumes "fst (pageSegment d n) = Inl e"
  shows "\<exists>s. fst (attach d s (fst (getLayoutOrPageModule d n))) = Inl e"
proof -
  obtain u fp where gl: "getLayoutOrPageModule d n = (u, fp)"
    by (cases "getLayoutOrPageModule d n")
  from assms show ?thesis
    unfolding pageSegment_def Let_def gl
    by (auto split: if_splits)
qed

lemma loop_Inl:
  "collectAppPageSegments_loop d (Some t) acc = Inl e
     \<Longrightarrow> \<exists>n \<in> set (chain t). fst (pageSegment d n) = Inl e"
proof (induction t arbitrary: acc rule: chain.induct)
  case (1 t)
  obtain r seg where seg: "pageSegment d t = (r, seg)" by (cases "pageSegment d t")
  show ?case
  proof (cases r)
    case (Inl e')
    with "1.prems" seg have "fst (pageSegment d t) = Inl e" by simp
    then show ?thesis using chain_root_mem [of t] by blast
  next
    case (Inr x)
    show ?thesis
    proof (cases "map_of (parallelRoutes t) ''children''")
      case None
      then show ?thesis using "1.prems" seg Inr by simp
    next
      case (Some c)
      have "collectAppPageSegments_loop d (Some c) (acc @ [seg]) = Inl e"
        using "1.prems" seg Inr Some by simp
      from "1.IH" [OF Some this] show ?thesis
        using Some by (auto simp: chain_children_Some)
    qed
  qed
qed

lemma collectAppRouteSegments_error:
  assumes "collectAppRouteSegments d r = Inl e"
  shows "e = InvariantError ''Expected at least one segment''
         \<or> (\<exists>s. fst (attach d s (userland r)) = Inl e)"
proof (cases "slice1 (split (CHR ''/'') (pathname r)) = []")
  case True
  with assms show ?thesis by (simp add: collectAppRouteSegments_def)
next
  case False
  let ?segments = "map (routeSegment d) (slice1 (split (CHR ''/'') (pathname r)))"
  let ?segment = "(?segments ! (length ?segments - 1))\<lparr>filePath := Some (filename r)\<rparr>"
  obtain x s' where a: "attach d ?segment (userland r) = (x, s')"
    by (cases "attach d ?segment (userland r)")
  with assms False have "x = Inl e"
    by (cases x) (simp_all add: collectAppRouteSegments_def Let_def)
  with a have "fst (attach d ?segment (userland r)) = Inl e" by simp
  then show ?thesis by blast
qed

subsection \<open>The sample inputs, evaluated\<close>

lemma sample_safeParse_edge:
  "safeParse sample_collaborators sample_edge_userland = Inr [(''runtime'', JSString ''edge'')]"
  by (simp add: sample_collaborators_def sample_safeParse_def sample_issues_def sample_data_def
      sample_edge_userland_def)

lemma sample_safeParse_nodejs:
  "safeParse sample_collaborators sample_nodejs_userland
     = Inr [(''runtime'', JSString ''nodejs'')]"
  by (simp add: sample_collaborators_def sample_safeParse_def sample_issues_def sample_data_def
      sample_nodejs_userland_def)

lemma sample_safeParse_invalid:
  "safeParse sample_collaborators sample_invalid_userland
     = Inl [''Invalid runtime'', ''Invalid maxDuration'']"
  by (simp add: sample_collaborators_def sample_safeParse_def sample_issues_def
      sample_invalid_userland_def)

lemma sample_safeParse_empty: "safeParse sample_collaborators (JSObject []) = Inr []"
  by (simp add: sample_collaborators_def sample_safeParse_def sample_issues_def sample_data_def)

lemma sample_normalize: "normalizeZodErrors sample_collaborators e = e"
  by (simp add: sample_collaborators_def)

lemma sample_getSegmentParam_id:
  "getSegmentParam sample_collaborators ''[id]'' = Some (SegmentParam ''id'' ''dynamic'')"
  by (simp add: sample_collaborators_def sample_getSegmentParam_def bracketed_test_def)

lemma sample_invalid_facts:
  "typeof sample_invalid_userland = ''object''" "sample_invalid_userland \<noteq> JSNull"
  by (simp_all add: sample_invalid_userland_def)

lemma sample_nodejs_facts:
  "typeof sample_nodejs_userland = ''object''" "sample_nodejs_userland \<noteq> JSNull"
  "hasProperty ''generateStaticParams'' sample_nodejs_userland"
  "getProperty sample_nodejs_userland ''generateStaticParams'' = JSFunction 1"
  by (simp_all add: sample_nodejs_userland_def)

lemma sample_edge_facts:
  "typeof sample_edge_userland = ''object''" "sample_edge_userland \<noteq> JSNull"
  "hasProperty ''generateStaticParams'' sample_edge_userland"
  "getProperty sample_edge_userland ''generateStaticParams'' = JSFunction 0"
  by (simp_all add: sample_edge_userland_def)

lemma sample_attach_edge:
  "attach sample_collaborators s sample_edge_userland
     = (Inl (Error ''Edge runtime is not supported with `generateStaticParams`.''),
        s\<lparr>config := Some [(''runtime'', JSString ''edge'')],
          generateStaticParams := Some (JSFunction 0)\<rparr>)"
  by (simp add: attach_def sample_safeParse_edge sample_edge_facts Object_keys_def
      config_runtime_is_edge_def Let_def)

lemma sample_attach_nodejs:
  "attach sample_collaborators
     \<lparr>name = n, param = p, filePath = fp, config = None, isDynamicSegment = b,
      generateStaticParams = None\<rparr> sample_nodejs_userland
   = (Inr (), \<lparr>name = n, param = p, filePath = fp,
               config = Some [(''runtime'', JSString ''nodejs'')], isDynamicSegment = b,
               generateStaticParams = Some (JSFunction 1)\<rparr>)"
  by (simp add: attach_def sample_safeParse_nodejs sample_nodejs_facts Object_keys_def
      config_runtime_is_edge_def Let_def)

lemma chain_sample_page: "chain sample_page = [sample_page]"
  by (rule chain_children_None) (simp add: sample_page_def)

lemma chain_sample_tree: "chain sample_tree = [sample_tree, sample_page]"
proof -
  have "map_of (parallelRoutes sample_tree) ''children'' = Some sample_page"
    by (simp add: sample_tree_def)
  from chain_children_Some [OF this] show ?thesis by (simp add: chain_sample_page)
qed

lemma chain_sample_invalid_tree: "chain sample_invalid_tree = [sample_invalid_tree, sample_page]"
proof -
  have "map_of (parallelRoutes sample_invalid_tree) ''children'' = Some sample_page"
    by (simp add: sample_invalid_tree_def)
  from chain_children_Some [OF this] show ?thesis by (simp add: chain_sample_page)
qed

lemma sample_pageSegment_tree:
  "pageSegment sample_collaborators sample_tree
     = (Inr (), \<lparr>name = '''', param = None, filePath = Some ''app/layout.tsx'', config = None,
                 isDynamicSegment = False, generateStaticParams = None\<rparr>)"
  by (simp add: pageSegment_def sample_collaborators_def sample_tree_def
      sample_isClientReference_def sample_client_userland_def bracketed_test_def)

lemma sample_pageSegment_page:
  "pageSegment sample_collaborators sample_page
     = (Inr (), \<lparr>name = ''[id]'', param = Some ''id'', filePath = Some ''app/[id]/page.tsx'',
                 config = Some [(''runtime'', JSString ''nodejs'')], isDynamicSegment = True,
                 generateStaticParams = Some (JSFunction 1)\<rparr>)"
proof -
  have g: "getLayoutOrPageModule sample_collaborators sample_page
             = (sample_nodejs_userland, Some ''app/[id]/page.tsx'')"
    by (simp add: sample_collaborators_def sample_page_def)
  have c: "\<not> isClientReference sample_collaborators sample_nodejs_userland"
    by (simp add: sample_collaborators_def sample_isClientReference_def sample_nodejs_userland_def)
  have n: "treeName sample_page = ''[id]''" by (simp add: sample_page_def)
  have b: "bracketed_test ''[id]''" by (simp add: bracketed_test_def)
  show ?thesis
    by (simp add: pageSegment_def g c n b sample_getSegmentParam_id sample_attach_nodejs)
qed

lemma sample_route_segments:
  "collectAppRouteSegments sample_collaborators sample_route
     = Inr [\<lparr>name = ''a'', param = None, filePath = None, config = None,
             isDynamicSegment = False, generateStaticParams = None\<rparr>,
            \<lparr>name = ''[id]'', param = Some ''id'', filePath = None, config = None,
             isDynamicSegment = True, generateStaticParams = None\<rparr>,
            \<lparr>name = ''b'', param = None, filePath = Some ''app/a/[id]/b/route.ts'',
             config = Some [(''runtime'', JSString ''nodejs'')], isDynamicSegment = False,
             generateStaticParams = Some (JSFunction 1)\<rparr>]"
proof -
  have b: "\<not> bracketed_test ''a''" "bracketed_test ''[id]''" "\<not> bracketed_test ''b''"
    by (simp_all add: bracketed_test_def)
  show ?thesis
    by (simp add: collectAppRouteSegments_def Let_def slice1_def sample_route_def
        routeSegment_def b sample_getSegmentParam_id sample_attach_nodejs)
qed

lemma sample_tree_segments:
  "collectAppPageSegments sample_collaborators \<lparr>loaderTree = sample_tree\<rparr>
     = Inr [\<lparr>name = '''', param = None, filePath = Some ''app/layout.tsx'', config = None,
             isDynamicSegment = False, generateStaticParams = None\<rparr>,
            \<lparr>name = ''[id]'', param = Some ''id'', filePath = Some ''app/[id]/page.tsx'',
             config = Some [(''runtime'', JSString ''nodejs'')], isDynamicSegment = True,
             generateStaticParams = Some (JSFunction 1)\<rparr>]"
proof -
  have "\<forall>n \<in> set (chain sample_tree). fst (pageSegment sample_collaborators n) = Inr ()"
    by (simp add: chain_sample_tree sample_pageSegment_tree sample_pageSegment_page)
  from loop_ok [OF this, of "[]"] show ?thesis
    by (simp add: collectAppPageSegments_def chain_sample_tree sample_pageSegment_tree
        sample_pageSegment_page)
qed

section \<open>Properties of attach\<close>

text \<open>
  C9.  For every segment and every userland value that is not an object (\<^verbatim>\<open>typeof\<close>
  other than \<^verbatim>\<open>'object'\<close>, or \<^verbatim>\<open>null\<close>), \<^verbatim>\<open>attach\<close> returns normally and leaves
  every field of the segment as it was.
\<close>

theorem attach_non_object_untouched:
  "typeof u \<noteq> ''object'' \<or> u = JSNull \<Longrightarrow> attach d segment u = (Inr (), segment)"
  by (simp add: attach_def)

text \<open>The same at \<^verbatim>\<open>undefined\<close> and at \<^verbatim>\<open>null\<close>, with the sample segment.\<close>

theorem attach_non_object_untouched_witness:
  "typeof JSUndefined = ''undefined''
   \<and> attach sample_collaborators sample_segment JSUndefined = (Inr (), sample_segment)
   \<and> attach sample_collaborators sample_segment JSNull = (Inr (), sample_segment)"
  using attach_non_object_untouched [of JSUndefined sample_collaborators sample_segment]
    attach_non_object_untouched [of JSNull sample_collaborators sample_segment]
  by simp

text \<open>
  C10.  For every segment and every object-shaped userland export that fails schema
  validation, \<^verbatim>\<open>attach\<close> throws an \<^verbatim>\<open>Error\<close> before any assignment: the segment it
  was given is left exactly as it was.
\<close>

theorem attach_validation_failure_atomic:
  assumes "typeof u = ''object''" and "u \<noteq> JSNull" and "safeParse d u = Inl err"
  shows "snd (attach d segment u) = segment \<and> (\<exists>msg. fst (attach d segment u) = Inl (Error msg))"
  using assms by (simp add: attach_def)

text \<open>The same at an export with a wrong \<^verbatim>\<open>runtime\<close> and a wrong \<^verbatim>\<open>maxDuration\<close>.\<close>

theorem attach_validation_failure_atomic_witness:
  "safeParse sample_collaborators sample_invalid_userland
     = Inl [''Invalid runtime'', ''Invalid maxDuration'']
   \<and> snd (attach sample_collaborators sample_segment sample_invalid_userland) = sample_segment
   \<and> (\<exists>msg. fst (attach sample_collaborators sample_segment sample_invalid_userland)
               = Inl (Error msg))"
  using attach_validation_failure_atomic
          [OF sample_invalid_facts sample_safeParse_invalid, of sample_segment]
    sample_safeParse_invalid
  by simp

text \<open>
  C5.  For every segment and every object-shaped userland export that fails schema
  validation, \<^verbatim>\<open>attach\<close> throws one \<^verbatim>\<open>Error\<close> whose message is the header naming
  \<^verbatim>\<open>segment.filePath\<close> (printed as \<^verbatim>\<open>undefined\<close> when unset), followed, for each
  message that \<^verbatim>\<open>normalizeZodErrors\<close> reports and in that order, by a line feed, four
  spaces and the message.  No reported message is left out, so with two invalid keys
  reported the message holds both.
\<close>

theorem attach_validation_failure_message:
  assumes "typeof u = ''object''" and "u \<noteq> JSNull" and "safeParse d u = Inl err"
  shows "fst (attach d segment u)
           = Inl (Error (''Invalid segment configuration options detected for \"''
                           @ template_string (filePath segment) @ ''\": ''
                           @ concat (map (\<lambda>message. [CHR 0x0A] @ ''    '' @ message)
                                         (normalizeZodErrors d err))))"
  using assms by (simp add: attach_def join_Cons o_def)

text \<open>With the two invalid keys of the sample export, both are in the message.\<close>

theorem attach_validation_failure_message_witness:
  "safeParse sample_collaborators sample_invalid_userland
     = Inl [''Invalid runtime'', ''Invalid maxDuration'']
   \<and> fst (attach sample_collaborators sample_segment sample_invalid_userland)
       = Inl (Error (''Invalid segment configuration options detected for \"app/blog/page.tsx\": ''
                       @ [CHR 0x0A] @ ''    Invalid runtime''
                       @ [CHR 0x0A] @ ''    Invalid maxDuration''))"
  using attach_validation_failure_message
          [OF sample_invalid_facts sample_safeParse_invalid, of sample_segment]
    sample_safeParse_invalid
  by (simp add: sample_normalize template_string_def sample_segment_def)

text \<open>
  C6.  For every segment and every object-shaped userland export that passes
  validation, \<^verbatim>\<open>attach\<close> assigns the validated data to \<^verbatim>\<open>segment.config\<close> if and only
  if the data has at least one key; with no key, \<^verbatim>\<open>segment.config\<close> is left as it was
  (unset, for the fresh segments the collectors pass).
\<close>

theorem attach_config_iff_keys:
  assumes "typeof u = ''object''" and "u \<noteq> JSNull" and "safeParse d u = Inr data"
  shows "config (snd (attach d segment u))
           = (if Object_keys data = [] then config segment else Some data)"
  using assms by (simp add: attach_def Let_def)

text \<open>The same at the empty object \<^verbatim>\<open>{}\<close>, which the sample schema accepts.\<close>

theorem attach_config_iff_keys_witness:
  "safeParse sample_collaborators (JSObject []) = Inr []
   \<and> config sample_segment = None
   \<and> config (snd (attach sample_collaborators sample_segment (JSObject []))) = None"
proof -
  have h1: "typeof (JSObject []) = ''object''" by simp
  have h2: "JSObject [] \<noteq> JSNull" by simp
  from attach_config_iff_keys [OF h1 h2 sample_safeParse_empty, of sample_segment]
    sample_safeParse_empty
  show ?thesis by (simp add: Object_keys_def sample_segment_def)
qed

text \<open>
  An export \<^verbatim>\<open>{ runtime: 'edge', generateStaticParams: fn }\<close> makes \<^verbatim>\<open>attach\<close> throw,
  and the segment it was given then holds both the config and the function.
\<close>

theorem attach_edge_generateStaticParams_counterexample:
  "fst (attach sample_collaborators sample_segment sample_edge_userland)
     = Inl (Error ''Edge runtime is not supported with `generateStaticParams`.'')
   \<and> config (snd (attach sample_collaborators sample_segment sample_edge_userland))
       = Some [(''runtime'', JSString ''edge'')]
   \<and> generateStaticParams (snd (attach sample_collaborators sample_segment sample_edge_userland))
       = Some (JSFunction 0)"
  by (simp add: sample_attach_edge)

text \<open>
  C1.  For every segment and every userland export object whose validated configuration
  selects the edge runtime and which exposes a callable \<^verbatim>\<open>generateStaticParams\<close>,
  \<^verbatim>\<open>attach\<close> throws the feature-incompatibility \<^verbatim>\<open>Error\<close>; by then it has assigned both
  the validated config and the function to the segment it was given, and it does not
  undo the assignments.  Only a normal return keeps the two apart: whenever \<^verbatim>\<open>attach\<close>
  returns normally on a segment whose \<^verbatim>\<open>generateStaticParams\<close> was unset, the segment
  does not hold both \<^verbatim>\<open>generateStaticParams\<close> and a config selecting the edge runtime.
\<close>

theorem attach_edge_generateStaticParams:
  assumes "typeof u = ''object''" and "u \<noteq> JSNull" and "safeParse d u = Inr data"
    and "getProperty (JSObject data) ''runtime'' = JSString ''edge''"
    and "hasProperty ''generateStaticParams'' u"
    and "typeof (getProperty u ''generateStaticParams'') = ''function''"
  shows "attach d segment u
           = (Inl (Error ''Edge runtime is not supported with `generateStaticParams`.''),
              segment\<lparr>config := Some data,
                      generateStaticParams := Some (getProperty u ''generateStaticParams'')\<rparr>)
         \<and> (\<forall>s v. generateStaticParams s = None \<and> fst (attach d s v) = Inr ()
                \<longrightarrow> \<not> (config_runtime_is_edge (snd (attach d s v))
                        \<and> generateStaticParams (snd (attach d s v)) \<noteq> None))"
proof -
  have "data \<noteq> []" using assms(4) by auto
  then have "attach d segment u
           = (Inl (Error ''Edge runtime is not supported with `generateStaticParams`.''),
              segment\<lparr>config := Some data,
                      generateStaticParams := Some (getProperty u ''generateStaticParams'')\<rparr>)"
    using assms by (simp add: attach_def Let_def Object_keys_def config_runtime_is_edge_def)
  moreover have "\<forall>s v. generateStaticParams s = None \<and> fst (attach d s v) = Inr ()
                \<longrightarrow> \<not> (config_runtime_is_edge (snd (attach d s v))
                        \<and> generateStaticParams (snd (attach d s v)) \<noteq> None)"
    by (auto simp add: attach_def Let_def split: sum.splits if_splits)
  ultimately show ?thesis by simp
qed

text \<open>The same at the sample export, and a normal return at the \<^verbatim>\<open>nodejs\<close> one.\<close>

theorem attach_edge_generateStaticParams_witness:
  "attach sample_collaborators sample_segment sample_edge_userland
     = (Inl (Error ''Edge runtime is not supported with `generateStaticParams`.''),
        sample_segment\<lparr>config := Some [(''runtime'', JSString ''edge'')],
                       generateStaticParams := Some (JSFunction 0)\<rparr>)
   \<and> fst (attach sample_collaborators sample_segment sample_nodejs_userland) = Inr ()
   \<and> \<not> config_runtime_is_edge
          (snd (attach sample_collaborators sample_segment sample_nodejs_userland))"
proof -
  have h4: "getProperty (JSObject [(''runtime'', JSString ''edge'')]) ''runtime''
              = JSString ''edge''" by simp
  have h6: "typeof (getProperty sample_edge_userland ''generateStaticParams'') = ''function''"
    by (simp add: sample_edge_facts)
  have g: "generateStaticParams sample_segment = None" by (simp add: sample_segment_def)
  have r: "attach sample_collaborators sample_segment sample_nodejs_userland
             = (Inr (), sample_segment\<lparr>config := Some [(''runtime'', JSString ''nodejs'')],
                                      generateStaticParams := Some (JSFunction 1)\<rparr>)"
    unfolding sample_segment_def by (simp add: sample_attach_nodejs)
  note th = attach_edge_generateStaticParams
         [OF sample_edge_facts(1,2) sample_safeParse_edge h4 sample_edge_facts(3) h6,
          of sample_segment]
  from th have e: "attach sample_collaborators sample_segment sample_edge_userland
     = (Inl (Error ''Edge runtime is not supported with `generateStaticParams`.''),
        sample_segment\<lparr>config := Some [(''runtime'', JSString ''edge'')],
                       generateStaticParams := Some (JSFunction 0)\<rparr>)"
    by (simp add: sample_edge_facts)
  from th have "generateStaticParams sample_segment = None
      \<and> fst (attach sample_collaborators sample_segment sample_nodejs_userland) = Inr ()
      \<longrightarrow> \<not> (config_runtime_is_edge
                 (snd (attach sample_collaborators sample_segment sample_nodejs_userland))
               \<and> generateStaticParams
                   (snd (attach sample_collaborators sample_segment sample_nodejs_userland))
                   \<noteq> None)"
    by blast
  with g r have "\<not> config_runtime_is_edge
          (snd (attach sample_collaborators sample_segment sample_nodejs_userland))"
    by simp
  with e r show ?thesis by simp
qed

section \<open>Properties of the handler-route builder\<close>

text \<open>
  The path template \<^verbatim>\<open>/\<close> splits into two empty components, so one is left after
  the first is dropped: the builder raises nothing and returns one segment with the empty
  name.
\<close>

theorem collectAppRouteSegments_root_counterexample:
  "slice1 (split (CHR ''/'') ''/'') = ['''']
   \<and> pathname sample_root_route = ''/''
   \<and> collectAppRouteSegments sample_collaborators sample_root_route
       = Inr [\<lparr>name = '''', param = None, filePath = Some ''app/route.ts'', config = None,
               isDynamicSegment = False, generateStaticParams = None\<rparr>]"
  by (simp add: collectAppRouteSegments_def slice1_def routeSegment_def attach_def
      sample_root_route_def sample_safeParse_empty Object_keys_def bracketed_test_def)

text \<open>
  C2.  The builder raises the internal invariant failure \<^verbatim>\<open>Expected at least one
  segment\<close>, and produces no segments, exactly when the path template contains no
  \<^verbatim>\<open>/\<close> at all (the empty template, for one): only then do zero components remain
  after the split and the drop of the first component.
\<close>

theorem collectAppRouteSegments_invariant_iff:
  "(collectAppRouteSegments d routeModule
      = Inl (InvariantError ''Expected at least one segment''))
     = (CHR ''/'' \<notin> set (pathname routeModule))"
proof (cases "CHR ''/'' \<in> set (pathname routeModule)")
  case True
  then have "length (slice1 (split (CHR ''/'') (pathname routeModule))) \<noteq> 0"
    using slice1_split_Nil [of "CHR ''/''" "pathname routeModule"] by simp
  then show ?thesis using True
    by (auto simp: collectAppRouteSegments_def Let_def split: prod.splits sum.splits
        dest!: attach_error_kind)
next
  case False
  then have "length (slice1 (split (CHR ''/'') (pathname routeModule))) = 0"
    using slice1_split_Nil [of "CHR ''/''" "pathname routeModule"] by simp
  then show ?thesis using False by (simp add: collectAppRouteSegments_def)
qed

text \<open>The failure at the empty template, and none at \<^verbatim>\<open>/\<close>.\<close>

theorem collectAppRouteSegments_invariant_iff_witness:
  "collectAppRouteSegments sample_collaborators (sample_root_route\<lparr>pathname := ''''\<rparr>)
     = Inl (InvariantError ''Expected at least one segment'')
   \<and> collectAppRouteSegments sample_collaborators sample_root_route
       \<noteq> Inl (InvariantError ''Expected at least one segment'')"
  using collectAppRouteSegments_invariant_iff
          [of sample_collaborators "sample_root_route\<lparr>pathname := ''''\<rparr>"]
        collectAppRouteSegments_invariant_iff [of sample_collaborators sample_root_route]
  by (simp add: sample_root_route_def)

text \<open>
  With the template \<^verbatim>\<open>/a/[id]/b\<close> and an export that selects the edge runtime and has
  \<^verbatim>\<open>generateStaticParams\<close>, the builder throws and returns no segment.
\<close>

theorem collectAppRouteSegments_a_id_b_counterexample:
  "pathname sample_edge_route = ''/a/[id]/b''
   \<and> collectAppRouteSegments sample_collaborators sample_edge_route
       = Inl (Error ''Edge runtime is not supported with `generateStaticParams`.'')"
  by (simp add: collectAppRouteSegments_def Let_def slice1_def sample_edge_route_def
      sample_attach_edge)

text \<open>
  C4.  For a route-handler module with path template \<^verbatim>\<open>/a/[id]/b\<close>, with
  \<^verbatim>\<open>getSegmentParam\<close> resolving \<^verbatim>\<open>[id]\<close> to \<^verbatim>\<open>id\<close>: \<^verbatim>\<open>attach\<close> is called once, on
  the segment \<^verbatim>\<open>b\<close> with \<^verbatim>\<open>filePath\<close> set to the module's file.  When it returns
  normally the builder returns exactly three segments named \<^verbatim>\<open>a\<close>, \<^verbatim>\<open>[id]\<close>, \<^verbatim>\<open>b\<close>
  in that order: the first two have no \<^verbatim>\<open>filePath\<close>, no config and no
  \<^verbatim>\<open>generateStaticParams\<close>, the middle one has \<^verbatim>\<open>param\<close> equal to \<^verbatim>\<open>id\<close>, and the
  last is the segment as \<^verbatim>\<open>attach\<close> left it, still named \<^verbatim>\<open>b\<close> and with that
  \<^verbatim>\<open>filePath\<close>.  When \<^verbatim>\<open>attach\<close> throws, the builder throws the same error and returns
  no segments.
\<close>

theorem collectAppRouteSegments_a_id_b:
  assumes "map_option sp_param (getSegmentParam d ''[id]'') = Some ''id''"
  shows "collectAppRouteSegments d \<lparr>pathname = ''/a/[id]/b'', filename = f, userland = u\<rparr>
           = (case attach d \<lparr>name = ''b'', param = None, filePath = Some f, config = None,
                             isDynamicSegment = False, generateStaticParams = None\<rparr> u of
                (Inl e, last_segment) \<Rightarrow> Inl e
              | (Inr x, last_segment) \<Rightarrow>
                  Inr [\<lparr>name = ''a'', param = None, filePath = None, config = None,
                        isDynamicSegment = False, generateStaticParams = None\<rparr>,
                       \<lparr>name = ''[id]'', param = Some ''id'', filePath = None, config = None,
                        isDynamicSegment = True, generateStaticParams = None\<rparr>,
                       last_segment])
         \<and> name (snd (attach d \<lparr>name = ''b'', param = None, filePath = Some f, config = None,
                        isDynamicSegment = False, generateStaticParams = None\<rparr> u)) = ''b''
         \<and> param (snd (attach d \<lparr>name = ''b'', param = None, filePath = Some f, config = None,
                        isDynamicSegment = False, generateStaticParams = None\<rparr> u)) = None
         \<and> filePath (snd (attach d \<lparr>name = ''b'', param = None, filePath = Some f,
                        config = None, isDynamicSegment = False,
                        generateStaticParams = None\<rparr> u)) = Some f
         \<and> isDynamicSegment (snd (attach d \<lparr>name = ''b'', param = None, filePath = Some f,
                        config = None, isDynamicSegment = False,
                        generateStaticParams = None\<rparr> u)) = False"
proof -
  have b: "\<not> bracketed_test ''a''" "bracketed_test ''[id]''" "\<not> bracketed_test ''b''"
    by (simp_all add: bracketed_test_def)
  have ra: "routeSegment d ''a'' = \<lparr>name = ''a'', param = None, filePath = None,
               config = None, isDynamicSegment = False, generateStaticParams = None\<rparr>"
    by (simp add: routeSegment_def b)
  have rid: "routeSegment d ''[id]'' = \<lparr>name = ''[id]'', param = Some ''id'',
               filePath = None, config = None, isDynamicSegment = True,
               generateStaticParams = None\<rparr>"
    unfolding routeSegment_def Let_def assms(1) by (simp add: b)
  have rb: "routeSegment d ''b'' = \<lparr>name = ''b'', param = None, filePath = None,
               config = None, isDynamicSegment = False, generateStaticParams = None\<rparr>"
    by (simp add: routeSegment_def b)
  show ?thesis
    by (simp add: collectAppRouteSegments_def Let_def slice1_def ra rid rb attach_frame
        split: prod.splits sum.splits)
qed

text \<open>The same at the sample route, whose export selects \<^verbatim>\<open>nodejs\<close>.\<close>

theorem collectAppRouteSegments_a_id_b_witness:
  "collectAppRouteSegments sample_collaborators sample_route
     = Inr [\<lparr>name = ''a'', param = None, filePath = None, config = None,
             isDynamicSegment = False, generateStaticParams = None\<rparr>,
            \<lparr>name = ''[id]'', param = Some ''id'', filePath = None, config = None,
             isDynamicSegment = True, generateStaticParams = None\<rparr>,
            \<lparr>name = ''b'', param = None, filePath = Some ''app/a/[id]/b/route.ts'',
             config = Some [(''runtime'', JSString ''nodejs'')], isDynamicSegment = False,
             generateStaticParams = Some (JSFunction 1)\<rparr>]"
proof -
  have p: "map_option sp_param (getSegmentParam sample_collaborators ''[id]'') = Some ''id''"
    by (simp add: sample_getSegmentParam_id)
  from collectAppRouteSegments_a_id_b
         [OF p, of "''app/a/[id]/b/route.ts''" sample_nodejs_userland]
  show ?thesis by (simp add: sample_route_def sample_attach_nodejs)
qed

section \<open>Properties of the page-route walker\<close>

text \<open>
  A tree of two chained nodes whose root module fails validation: the walk throws at
  the root and yields no segment.
\<close>

theorem collectAppPageSegments_chain_counterexample:
  "length (chain sample_invalid_tree) = 2
   \<and> collectAppPageSegments sample_collaborators \<lparr>loaderTree = sample_invalid_tree\<rparr>
       = Inl (Error (''Invalid segment configuration options detected for \"app/layout.tsx\": ''
                       @ [CHR 0x0A] @ ''    Invalid runtime''
                       @ [CHR 0x0A] @ ''    Invalid maxDuration''))"
proof -
  have g: "getLayoutOrPageModule sample_collaborators sample_invalid_tree
             = (sample_invalid_userland, Some ''app/layout.tsx'')"
    by (simp add: sample_collaborators_def sample_invalid_tree_def)
  have c: "\<not> isClientReference sample_collaborators sample_invalid_userland"
    by (simp add: sample_collaborators_def sample_isClientReference_def
        sample_invalid_userland_def)
  obtain r s where ps: "pageSegment sample_collaborators sample_invalid_tree = (r, s)"
    by (cases "pageSegment sample_collaborators sample_invalid_tree")
  have "fst (pageSegment sample_collaborators sample_invalid_tree)
          = Inl (Error (''Invalid segment configuration options detected for \"app/layout.tsx\": ''
                       @ [CHR 0x0A] @ ''    Invalid runtime''
                       @ [CHR 0x0A] @ ''    Invalid maxDuration''))"
    by (simp add: pageSegment_def Let_def g c attach_def sample_invalid_facts
        sample_safeParse_invalid sample_normalize template_string_def)
  with ps have "r = Inl (Error (''Invalid segment configuration options detected for \"app/layout.tsx\": ''
                       @ [CHR 0x0A] @ ''    Invalid runtime''
                       @ [CHR 0x0A] @ ''    Invalid maxDuration''))"
    by simp
  with ps show ?thesis
    by (simp add: chain_sample_invalid_tree collectAppPageSegments_def)
qed

text \<open>
  C3.  For every loader tree, with \<open>chain t\<close> its \<open>N\<close> chained nodes (each node but the
  last has a \<^verbatim>\<open>children\<close> entry, which is the next node, and the last has none): when
  \<^verbatim>\<open>attach\<close> throws at no node, the walker returns exactly \<open>N\<close> segments, the \<open>i\<close>-th
  being the segment built for the \<open>i\<close>-th node and carrying its name, in root-to-leaf
  order, so that the walk ends at the node without a \<^verbatim>\<open>children\<close> entry.  When
  \<^verbatim>\<open>attach\<close> throws at some node, the walker throws and yields no segments.
\<close>

theorem collectAppPageSegments_chain:
  "((\<forall>n \<in> set (chain t). fst (pageSegment d n) = Inr ())
      \<longrightarrow> (\<exists>segs. collectAppPageSegments d \<lparr>loaderTree = t\<rparr> = Inr segs
             \<and> length segs = length (chain t)
             \<and> map name segs = map treeName (chain t)
             \<and> (\<forall>i < length (chain t).
                   segs ! i = snd (pageSegment d (chain t ! i))
                   \<and> map_of (parallelRoutes (chain t ! i)) ''children''
                       = (if Suc i < length (chain t) then Some (chain t ! Suc i) else None))))
   \<and> ((\<exists>n \<in> set (chain t). fst (pageSegment d n) \<noteq> Inr ())
      \<longrightarrow> (\<exists>e. collectAppPageSegments d \<lparr>loaderTree = t\<rparr> = Inl e))"
proof (intro conjI impI)
  assume ok: "\<forall>n \<in> set (chain t). fst (pageSegment d n) = Inr ()"
  have "collectAppPageSegments d \<lparr>loaderTree = t\<rparr>
          = Inr (map (\<lambda>n. snd (pageSegment d n)) (chain t))"
    using loop_ok [OF ok, of "[]"] by (simp add: collectAppPageSegments_def)
  then show "\<exists>segs. collectAppPageSegments d \<lparr>loaderTree = t\<rparr> = Inr segs
             \<and> length segs = length (chain t)
             \<and> map name segs = map treeName (chain t)
             \<and> (\<forall>i < length (chain t).
                   segs ! i = snd (pageSegment d (chain t ! i))
                   \<and> map_of (parallelRoutes (chain t ! i)) ''children''
                       = (if Suc i < length (chain t) then Some (chain t ! Suc i) else None))"
    by (simp add: pageSegment_frame(1) chain_nth_children)
next
  assume bad: "\<exists>n \<in> set (chain t). fst (pageSegment d n) \<noteq> Inr ()"
  show "\<exists>e. collectAppPageSegments d \<lparr>loaderTree = t\<rparr> = Inl e"
  proof (cases "collectAppPageSegments d \<lparr>loaderTree = t\<rparr>")
    case (Inl e)
    then show ?thesis by blast
  next
    case (Inr segs)
    then have "\<forall>n \<in> set (chain t). fst (pageSegment d n) = Inr ()"
      unfolding collectAppPageSegments_def using loop_Inr [of d t "[]" segs] by simp
    with bad show ?thesis by blast
  qed
qed

text \<open>The sample tree has two chained nodes and a \<^verbatim>\<open>modal\<close> slot that is not walked.\<close>

theorem collectAppPageSegments_chain_witness:
  "\<exists>segs. collectAppPageSegments sample_collaborators \<lparr>loaderTree = sample_tree\<rparr> = Inr segs
     \<and> length segs = 2 \<and> map name segs = ['''', ''[id]'']"
proof -
  have "\<forall>n \<in> set (chain sample_tree). fst (pageSegment sample_collaborators n) = Inr ()"
    by (simp add: chain_sample_tree sample_pageSegment_tree sample_pageSegment_page)
  with collectAppPageSegments_chain [of sample_tree sample_collaborators] obtain segs where
    "collectAppPageSegments sample_collaborators \<lparr>loaderTree = sample_tree\<rparr> = Inr segs"
    "length segs = length (chain sample_tree)"
    "map name segs = map treeName (chain sample_tree)"
    by blast
  then show ?thesis
    by (simp add: chain_sample_tree) (simp add: sample_tree_def sample_page_def)
qed

text \<open>
  C7.  For every node of the walk whose resolved module \<^verbatim>\<open>isClientReference\<close>
  classifies as a client component, the segment built for the node is the fresh one:
  \<^verbatim>\<open>config\<close> and \<^verbatim>\<open>generateStaticParams\<close> unset and no error, whatever the module
  exports and whatever the schema would say of it; and so it stands in the list the
  walker returns.
\<close>

theorem client_component_segment_untouched:
  assumes "i < length (chain t)"
    and "isClientReference d (fst (getLayoutOrPageModule d (chain t ! i)))"
  shows "pageSegment d (chain t ! i)
           = (Inr (),
              \<lparr>name = treeName (chain t ! i),
               param = (if bracketed_test (treeName (chain t ! i))
                        then map_option sp_param (getSegmentParam d (treeName (chain t ! i)))
                        else None),
               filePath = snd (getLayoutOrPageModule d (chain t ! i)), config = None,
               isDynamicSegment = bracketed_test (treeName (chain t ! i)),
               generateStaticParams = None\<rparr>)
         \<and> (\<forall>segs. collectAppPageSegments d \<lparr>loaderTree = t\<rparr> = Inr segs
               \<longrightarrow> config (segs ! i) = None \<and> generateStaticParams (segs ! i) = None)"
proof -
  note ps = pageSegment_client [OF assms(2)]
  have "config (segs ! i) = None \<and> generateStaticParams (segs ! i) = None"
    if "collectAppPageSegments d \<lparr>loaderTree = t\<rparr> = Inr segs" for segs
  proof -
    from collectAppPageSegments_Inr [OF that]
    have "segs ! i = snd (pageSegment d (chain t ! i))" using assms(1) by simp
    then show ?thesis by (simp add: ps)
  qed
  then show ?thesis using ps by blast
qed

text \<open>
  The root of the sample tree is a client component that exports \<^verbatim>\<open>runtime\<close> and
  \<^verbatim>\<open>generateStaticParams\<close>; its segment has neither.
\<close>

theorem client_component_segment_untouched_witness:
  "hasProperty ''generateStaticParams''
     (fst (getLayoutOrPageModule sample_collaborators (chain sample_tree ! 0)))
   \<and> pageSegment sample_collaborators (chain sample_tree ! 0)
       = (Inr (), \<lparr>name = '''', param = None, filePath = Some ''app/layout.tsx'',
                   config = None, isDynamicSegment = False, generateStaticParams = None\<rparr>)"
proof -
  have l: "0 < length (chain sample_tree)" by (simp add: chain_sample_tree)
  have t: "chain sample_tree ! 0 = sample_tree" by (simp add: chain_sample_tree)
  have g: "getLayoutOrPageModule sample_collaborators sample_tree
             = (sample_client_userland, Some ''app/layout.tsx'')"
    by (simp add: sample_collaborators_def sample_tree_def)
  have c: "isClientReference sample_collaborators
             (fst (getLayoutOrPageModule sample_collaborators (chain sample_tree ! 0)))"
    by (simp add: t g) (simp add: sample_collaborators_def sample_isClientReference_def
        sample_client_userland_def)
  have n: "treeName sample_tree = ''''" by (simp add: sample_tree_def)
  from client_component_segment_untouched [OF l c]
  show ?thesis by (simp add: t g n bracketed_test_def) (simp add: sample_client_userland_def)
qed

section \<open>Dynamic segments of both collectors\<close>

text \<open>
  C8.  For every segment that \<^verbatim>\<open>collectSegments\<close> returns, from the page walker or
  from the handler-route builder, \<^verbatim>\<open>isDynamicSegment\<close> is true exactly when the name
  matches \<^verbatim>\<open>^\[.*\]$\<close>, that is, when it is an opening bracket, any characters
  without a line terminator, and a closing bracket; and \<^verbatim>\<open>param\<close> is what
  \<^verbatim>\<open>getSegmentParam\<close> extracts from the name when the segment is dynamic, absent when
  the extraction yields nothing, and absent when the segment is not dynamic.  The
  returned segments carry the names of all path components, or of all nodes of the
  walk, in order.  An extraction that yields nothing is not an error: with any other
  extraction routine in place of \<^verbatim>\<open>getSegmentParam\<close>, one that yields nothing
  included, the collection throws the same error or returns the same segments with
  only \<^verbatim>\<open>param\<close> changed; and every error a collection throws is one of the two
  invariant failures or an error thrown by \<^verbatim>\<open>attach\<close> on a module of the route.
\<close>

theorem segment_dynamic_fields:
  "(\<forall>segs s. collectSegments d routeModule = Inr segs \<and> s \<in> set segs
       \<longrightarrow> isDynamicSegment s = bracketed_test (name s)
           \<and> isDynamicSegment s
               = (\<exists>m. name s = CHR ''['' # m @ '']'' \<and> \<not> hasLineTerminator m)
           \<and> param s = (if isDynamicSegment s
                         then map_option sp_param (getSegmentParam d (name s)) else None))
   \<and> (\<forall>segs. collectSegments d routeModule = Inr segs
         \<longrightarrow> map name segs
               = (case routeModule of
                    AppRoute r \<Rightarrow> slice1 (split (CHR ''/'') (pathname r))
                  | AppPage p \<Rightarrow> map treeName (chain (loaderTree p))
                  | OtherRouteModule \<Rightarrow> []))
   \<and> (\<forall>g. collectSegments (d\<lparr>getSegmentParam := g\<rparr>) routeModule
            = (case collectSegments d routeModule of
                 Inl e \<Rightarrow> Inl e
               | Inr segs \<Rightarrow> Inr (map (with_extraction g) segs)))
   \<and> (\<forall>e. collectSegments d routeModule = Inl e
         \<longrightarrow> (case routeModule of
                AppRoute r \<Rightarrow>
                  e = InvariantError ''Expected at least one segment''
                  \<or> (\<exists>s. fst (attach d s (userland r)) = Inl e)
              | AppPage p \<Rightarrow>
                  (\<exists>n s. n \<in> set (chain (loaderTree p))
                     \<and> fst (attach d s (fst (getLayoutOrPageModule d n))) = Inl e)
              | OtherRouteModule \<Rightarrow>
                  e = InvariantError ''Expected a route module to be one of app route or page''))"
proof -
  have c1: "\<forall>segs s. collectSegments d routeModule = Inr segs \<and> s \<in> set segs
       \<longrightarrow> isDynamicSegment s = bracketed_test (name s)
           \<and> isDynamicSegment s
               = (\<exists>m. name s = CHR ''['' # m @ '']'' \<and> \<not> hasLineTerminator m)
           \<and> param s = (if isDynamicSegment s
                         then map_option sp_param (getSegmentParam d (name s)) else None)"
  proof (intro allI impI)
    fix segs s
    assume a: "collectSegments d routeModule = Inr segs \<and> s \<in> set segs"
    have "isDynamicSegment s = bracketed_test (name s)
          \<and> param s = (if bracketed_test (name s)
                        then map_option sp_param (getSegmentParam d (name s)) else None)"
    proof (cases routeModule)
      case (AppRoute rm)
      with a have "collectAppRouteSegments d rm = Inr segs" by simp
      from collectAppRouteSegments_Inr [OF this] a show ?thesis
        by (simp add: routeSegment_fields)
    next
      case (AppPage pm)
      with a have "collectAppPageSegments d pm = Inr segs" by simp
      from collectAppPageSegments_Inr [OF this] a
      obtain n where "s = snd (pageSegment d n)" by auto
      then show ?thesis by (simp add: pageSegment_frame)
    next
      case OtherRouteModule
      with a show ?thesis by simp
    qed
    then show "isDynamicSegment s = bracketed_test (name s)
             \<and> isDynamicSegment s
                 = (\<exists>m. name s = CHR ''['' # m @ '']'' \<and> \<not> hasLineTerminator m)
             \<and> param s = (if isDynamicSegment s
                           then map_option sp_param (getSegmentParam d (name s)) else None)"
      using bracketed_test_iff [of "name s"] by simp
  qed
  have c2: "\<forall>segs. collectSegments d routeModule = Inr segs
         \<longrightarrow> map name segs
               = (case routeModule of
                    AppRoute r \<Rightarrow> slice1 (split (CHR ''/'') (pathname r))
                  | AppPage p \<Rightarrow> map treeName (chain (loaderTree p))
                  | OtherRouteModule \<Rightarrow> [])"
  proof (intro allI impI)
    fix segs
    assume a: "collectSegments d routeModule = Inr segs"
    show "map name segs
                 = (case routeModule of
                      AppRoute r \<Rightarrow> slice1 (split (CHR ''/'') (pathname r))
                    | AppPage p \<Rightarrow> map treeName (chain (loaderTree p))
                    | OtherRouteModule \<Rightarrow> [])"
    proof (cases routeModule)
      case (AppRoute rm)
      with a show ?thesis by (simp add: collectAppRouteSegments_names)
    next
      case (AppPage pm)
      with a have "collectAppPageSegments d pm = Inr segs" by simp
      from collectAppPageSegments_Inr [OF this] show ?thesis
        using AppPage by (simp add: pageSegment_frame(1) comp_def)
    next
      case OtherRouteModule
      with a show ?thesis by simp
    qed
  qed
  have c3: "\<forall>g. collectSegments (d\<lparr>getSegmentParam := g\<rparr>) routeModule
            = (case collectSegments d routeModule of
                 Inl e \<Rightarrow> Inl e
               | Inr segs \<Rightarrow> Inr (map (with_extraction g) segs))"
  proof (intro allI impI)
    fix g
    show "collectSegments (d\<lparr>getSegmentParam := g\<rparr>) routeModule
              = (case collectSegments d routeModule of
                   Inl e \<Rightarrow> Inl e
                 | Inr segs \<Rightarrow> Inr (map (with_extraction g) segs))"
    proof (cases routeModule)
      case (AppRoute rm)
      then show ?thesis by (simp add: route_getSegmentParam)
    next
      case (AppPage pm)
      then show ?thesis
        using loop_getSegmentParam [where d = d and g = g and cur = "Some (loaderTree pm)"
            and acc = "[]"]
        by (simp add: collectAppPageSegments_def)
    next
      case OtherRouteModule
      then show ?thesis by simp
    qed
  qed
  have c4: "\<forall>e. collectSegments d routeModule = Inl e
         \<longrightarrow> (case routeModule of
                AppRoute r \<Rightarrow>
                  e = InvariantError ''Expected at least one segment''
                  \<or> (\<exists>s. fst (attach d s (userland r)) = Inl e)
              | AppPage p \<Rightarrow>
                  (\<exists>n s. n \<in> set (chain (loaderTree p))
                     \<and> fst (attach d s (fst (getLayoutOrPageModule d n))) = Inl e)
              | OtherRouteModule \<Rightarrow>
                  e = InvariantError ''Expected a route module to be one of app route or page'')"
  proof (intro allI impI)
    fix e
    assume a: "collectSegments d routeModule = Inl e"
    show "case routeModule of
                  AppRoute r \<Rightarrow>
                    e = InvariantError ''Expected at least one segment''
                    \<or> (\<exists>s. fst (attach d s (userland r)) = Inl e)
                | AppPage p \<Rightarrow>
                    (\<exists>n s. n \<in> set (chain (loaderTree p))
                       \<and> fst (attach d s (fst (getLayoutOrPageModule d n))) = Inl e)
                | OtherRouteModule \<Rightarrow>
                    e = InvariantError ''Expected a route module to be one of app route or page''"
    proof (cases routeModule)
      case (AppRoute rm)
      with a show ?thesis by (simp add: collectAppRouteSegments_error)
    next
      case (AppPage pm)
      with a have "collectAppPageSegments_loop d (Some (loaderTree pm)) [] = Inl e"
        by (simp add: collectAppPageSegments_def)
      from loop_Inl [OF this] obtain n where n: "n \<in> set (chain (loaderTree pm))"
        and "fst (pageSegment d n) = Inl e" by blast
      from pageSegment_error [OF this(2)] n show ?thesis using AppPage by auto
    next
      case OtherRouteModule
      with a show ?thesis by simp
    qed
  qed
  from c1 c2 c3 c4 show ?thesis by (intro conjI)
qed

text \<open>
  The sample route and the sample tree under an extraction routine that yields nothing:
  both are collected, and their \<^verbatim>\<open>[id]\<close> segments are dynamic with no \<^verbatim>\<open>param\<close>.
\<close>

theorem segment_dynamic_fields_witness:
  "getSegmentParam (sample_collaborators\<lparr>getSegmentParam := sample_no_param\<rparr>) ''[id]'' = None
   \<and> collectSegments (sample_collaborators\<lparr>getSegmentParam := sample_no_param\<rparr>)
         (AppRoute sample_route)
       = Inr [\<lparr>name = ''a'', param = None, filePath = None, config = None,
               isDynamicSegment = False, generateStaticParams = None\<rparr>,
              \<lparr>name = ''[id]'', param = None, filePath = None, config = None,
               isDynamicSegment = True, generateStaticParams = None\<rparr>,
              \<lparr>name = ''b'', param = None, filePath = Some ''app/a/[id]/b/route.ts'',
               config = Some [(''runtime'', JSString ''nodejs'')], isDynamicSegment = False,
               generateStaticParams = Some (JSFunction 1)\<rparr>]
   \<and> collectSegments (sample_collaborators\<lparr>getSegmentParam := sample_no_param\<rparr>)
         (AppPage \<lparr>loaderTree = sample_tree\<rparr>)
       = Inr [\<lparr>name = '''', param = None, filePath = Some ''app/layout.tsx'', config = None,
               isDynamicSegment = False, generateStaticParams = None\<rparr>,
              \<lparr>name = ''[id]'', param = None, filePath = Some ''app/[id]/page.tsx'',
               config = Some [(''runtime'', JSString ''nodejs'')], isDynamicSegment = True,
               generateStaticParams = Some (JSFunction 1)\<rparr>]
   \<and> collectSegments sample_collaborators (AppRoute sample_route)
       = Inr [\<lparr>name = ''a'', param = None, filePath = None, config = None,
               isDynamicSegment = False, generateStaticParams = None\<rparr>,
              \<lparr>name = ''[id]'', param = Some ''id'', filePath = None, config = None,
               isDynamicSegment = True, generateStaticParams = None\<rparr>,
              \<lparr>name = ''b'', param = None, filePath = Some ''app/a/[id]/b/route.ts'',
               config = Some [(''runtime'', JSString ''nodejs'')], isDynamicSegment = False,
               generateStaticParams = Some (JSFunction 1)\<rparr>]"
proof -
  have r: "collectSegments sample_collaborators (AppRoute sample_route)
             = collectAppRouteSegments sample_collaborators sample_route" by simp
  have p: "collectSegments sample_collaborators (AppPage \<lparr>loaderTree = sample_tree\<rparr>)
             = collectAppPageSegments sample_collaborators \<lparr>loaderTree = sample_tree\<rparr>" by simp
  from segment_dynamic_fields [of sample_collaborators "AppRoute sample_route"]
  have 1: "collectSegments (sample_collaborators\<lparr>getSegmentParam := sample_no_param\<rparr>)
             (AppRoute sample_route)
           = (case collectSegments sample_collaborators (AppRoute sample_route) of
                Inl e \<Rightarrow> Inl e
              | Inr segs \<Rightarrow> Inr (map (with_extraction sample_no_param) segs))"
    by blast
  from segment_dynamic_fields [of sample_collaborators "AppPage \<lparr>loaderTree = sample_tree\<rparr>"]
  have 2: "collectSegments (sample_collaborators\<lparr>getSegmentParam := sample_no_param\<rparr>)
             (AppPage \<lparr>loaderTree = sample_tree\<rparr>)
           = (case collectSegments sample_collaborators (AppPage \<lparr>loaderTree = sample_tree\<rparr>) of
                Inl e \<Rightarrow> Inl e
              | Inr segs \<Rightarrow> Inr (map (with_extraction sample_no_param) segs))"
    by blast
  show ?thesis
    unfolding 1 2 r p sample_route_segments sample_tree_segments
    by (simp add: with_extraction_def sample_no_param_def)
qed

end
